theory Spec2Isabelle
  imports Main "HOL-Library.Sublist"
begin

section \<open>The Gem sharing report: \<open>user_shared_gems\<close>\<close>

text \<open>
  The repository is one Python function, \<open>user_shared_gems(owner, service_account_file)\<close>.
  It builds a Drive client that impersonates \<open>owner\<close>, lists the owner's Gem files page
  by page, turns every file into one row of a table and normalises the three time
  columns with pandas. The embedding below follows the function line by line.
  Two collaborators are outside the repository and are parameters of the model:
  the Drive client (what \<open>files().list(...).execute()\<close> answers) and pandas' date
  parser \<open>to_datetime(..., errors='coerce')\<close>. The progress line the function
  prints is not modelled.
\<close>

subsection \<open>Values received from the Drive API\<close>

text \<open>
  A JSON object is read with \<open>.get\<close>, so every key may be absent: a field is an
  \<open>option\<close>, \<open>None\<close> for an absent key. Only the keys the function reads are kept.
\<close>

record user =
  user_emailAddress :: "string option"

record permission =
  emailAddress :: "string option"
  displayName :: "string option"
  domain :: "string option"
  role :: "string option"

record drive_file =
  name :: "string option"
  webViewLink :: "string option"
  owners :: "user list option"
  createdTime :: "string option"
  modifiedTime :: "string option"
  viewedByMeTime :: "string option"
  permissions :: "permission list option"

record response =
  files :: "drive_file list option"
  nextPageToken :: "string option"

text \<open>The keyword arguments of \<open>service.files().list(...)\<close>.\<close>

record request =
  q :: string
  pageSize :: nat
  supportsAllDrives :: bool
  includeItemsFromAllDrives :: bool
  req_fields :: string
  pageToken :: "string option"

text \<open>
  Exceptions are values. \<open>ApiFailure\<close> stands for whatever the client library raises
  (building the credentials or executing a request); \<open>IndexError\<close> and \<open>KeyError\<close> are
  the two exceptions the function's own subscripts can raise.
\<close>

datatype exn = ApiFailure string | IndexError | KeyError string

type_synonym service = "request \<Rightarrow> exn + response"

subsection \<open>Python's truth value and \<open>or\<close> on optional strings\<close>

definition truthy :: "string option \<Rightarrow> bool" where
  "truthy v = (case v of None \<Rightarrow> False | Some s \<Rightarrow> s \<noteq> [])"

definition py_or :: "string option \<Rightarrow> string option \<Rightarrow> string option" where
  "py_or a b = (if truthy a then a else b)"

definition or_literal :: "string option \<Rightarrow> string \<Rightarrow> string" where
  "or_literal a d = (case a of None \<Rightarrow> d | Some s \<Rightarrow> if s \<noteq> [] then s else d)"

fun join :: "string \<Rightarrow> string list \<Rightarrow> string" where
  "join sep [] = []"
| "join sep [x] = x"
| "join sep (x # y # ys) = x @ sep @ join sep (y # ys)"

subsection \<open>The request (lines 6 to 27)\<close>

definition GEM_MIME_TYPE :: string where
  "GEM_MIME_TYPE = ''application/vnd.google-gemini.gem''"

definition apostrophe :: string where
  "apostrophe = [CHR 0x27]"

definition query :: "string \<Rightarrow> string" where
  "query owner =
     ''mimeType = '' @ apostrophe @ GEM_MIME_TYPE @ apostrophe @ '' and '' @
     apostrophe @ owner @ apostrophe @ '' in owners and trashed = false''"

definition fields_spec :: string where
  "fields_spec =
     ''nextPageToken, files(id, name, owners, createdTime, modifiedTime, webViewLink, viewedByMeTime, permissions)''"

definition list_request :: "string \<Rightarrow> string option \<Rightarrow> request" where
  "list_request owner page_token =
     \<lparr>q = query owner, pageSize = 100, supportsAllDrives = True,
      includeItemsFromAllDrives = True, req_fields = fields_spec, pageToken = page_token\<rparr>"

subsection \<open>The pagination loop (lines 16 to 31)\<close>

definition get_files :: "response \<Rightarrow> drive_file list" where
  "get_files results = (case files results of None \<Rightarrow> [] | Some fs \<Rightarrow> fs)"

text \<open>
  \<open>while True\<close> has no bound, so the loop is a partial function: \<open>None\<close> is a run that
  never leaves the loop. The first argument after the service and the owner is a log
  of the requests issued so far; the source keeps no such log, it is carried along so
  that theorems can speak about every request sent.
\<close>

partial_function (option) list_loop ::
  "service \<Rightarrow> string \<Rightarrow> request list \<Rightarrow> drive_file list \<Rightarrow> string option
     \<Rightarrow> (request list \<times> (exn + drive_file list)) option" where
  "list_loop svc owner sent all_files page_token =
     (case svc (list_request owner page_token) of
        Inl e \<Rightarrow> Some (sent @ [list_request owner page_token], Inl e)
      | Inr results \<Rightarrow>
          (if \<not> truthy (nextPageToken results)
           then Some (sent @ [list_request owner page_token], Inr (all_files @ get_files results))
           else list_loop svc owner (sent @ [list_request owner page_token])
                  (all_files @ get_files results) (nextPageToken results)))"

subsection \<open>One row per file (lines 32 to 59)\<close>

type_synonym cell = "string option"
type_synonym row = "(string \<times> cell) list"

definition owner_email_of :: "drive_file \<Rightarrow> exn + string" where
  "owner_email_of file =
     (case (case owners file of None \<Rightarrow> [\<lparr>user_emailAddress = None\<rparr>] | Some us \<Rightarrow> us) of
        [] \<Rightarrow> Inl IndexError
      | u # _ \<Rightarrow> Inr (case user_emailAddress u of None \<Rightarrow> ''Unknown'' | Some e \<Rightarrow> e))"

definition identity :: "permission \<Rightarrow> string" where
  "identity perm =
     or_literal (py_or (py_or (emailAddress perm) (displayName perm)) (domain perm)) ''Unknown''"

fun perm_loop :: "string \<Rightarrow> string list \<times> string list \<Rightarrow> permission list
    \<Rightarrow> string list \<times> string list" where
  "perm_loop owner_email (editors, viewers) [] = (editors, viewers)"
| "perm_loop owner_email (editors, viewers) (perm # rest) =
     (if identity perm = owner_email then perm_loop owner_email (editors, viewers) rest
      else if role perm = Some ''writer''
        then perm_loop owner_email (editors @ [identity perm], viewers) rest
      else if role perm \<in> set [Some ''reader'', Some ''commenter'']
        then perm_loop owner_email (editors, viewers @ [identity perm]) rest
      else perm_loop owner_email (editors, viewers) rest)"

definition make_row :: "drive_file \<Rightarrow> exn + row" where
  "make_row file =
     (case owner_email_of file of
        Inl e \<Rightarrow> Inl e
      | Inr owner_email \<Rightarrow>
          (case (case permissions file of
                   None \<Rightarrow> ([], [])
                 | Some perms \<Rightarrow> perm_loop owner_email ([], []) perms) of
             (editors, viewers) \<Rightarrow>
               Inr [(''File Name'', name file),
                    (''URL'', webViewLink file),
                    (''Owner'', Some owner_email),
                    (''Editor(s)'', Some (join '', '' editors)),
                    (''Viewer(s)'', Some (join '', '' viewers)),
                    (''Created'', createdTime file),
                    (''Modified'', modifiedTime file),
                    (''Opened by Me'',
                       Some (case viewedByMeTime file of None \<Rightarrow> ''Never'' | Some t \<Rightarrow> t))]))"

fun rows_loop :: "row list \<Rightarrow> drive_file list \<Rightarrow> exn + row list" where
  "rows_loop data_rows [] = Inr data_rows"
| "rows_loop data_rows (file # rest) =
     (case make_row file of
        Inl e \<Rightarrow> Inl e
      | Inr row \<Rightarrow> rows_loop (data_rows @ [row]) rest)"

subsection \<open>The table (lines 60 to 66)\<close>

text \<open>
  A DataFrame is its columns in order, each a name with the column's cells; a cell is
  a string or missing (\<open>None\<close>, which stands for Python's \<open>None\<close>, \<open>NaN\<close> and \<open>NaT\<close>).
  \<open>pd.DataFrame\<close> of a list of dicts takes the column names from the dicts' keys;
  every dict here is built by the same literal, so the keys of the first one are the
  keys of all. Of no dicts it is the table with no column and no row.
\<close>

type_synonym dataframe = "(string \<times> cell list) list"

definition lookup_cell :: "row \<Rightarrow> string \<Rightarrow> cell" where
  "lookup_cell d k = (case map_of d k of None \<Rightarrow> None | Some v \<Rightarrow> v)"

definition DataFrame :: "row list \<Rightarrow> dataframe" where
  "DataFrame data_rows =
     (case data_rows of
        [] \<Rightarrow> []
      | d # _ \<Rightarrow> map (\<lambda>k. (k, map (\<lambda>r. lookup_cell r k) data_rows)) (map fst d))"

definition df_empty :: "dataframe \<Rightarrow> bool" where
  "df_empty df = (case df of [] \<Rightarrow> True | (c, vs) # _ \<Rightarrow> vs = [])"

definition getitem :: "dataframe \<Rightarrow> string \<Rightarrow> exn + cell list" where
  "getitem df col = (case map_of df col of None \<Rightarrow> Inl (KeyError col) | Some vs \<Rightarrow> Inr vs)"

fun setitem :: "dataframe \<Rightarrow> string \<Rightarrow> cell list \<Rightarrow> dataframe" where
  "setitem [] col vs = [(col, vs)]"
| "setitem ((c, old) # df) col vs =
     (if c = col then (c, vs) # df else (c, old) # setitem df col vs)"

text \<open>
  pandas is not part of the repository. A parsed value is a \<open>Timestamp\<close>, of which
  \<open>strftime('%m/%d/%Y')\<close> reads the calendar date only. \<open>%m\<close> and \<open>%d\<close> are decimal
  numbers padded with a zero to two digits, \<open>%Y\<close> is the year in decimal.
\<close>

record timestamp =
  year :: nat
  month :: nat
  day :: nat

definition digit :: "nat \<Rightarrow> char" where
  "digit d = ''0123456789'' ! d"

function decimal :: "nat \<Rightarrow> string" where
  "decimal n = (if n < 10 then [digit n] else decimal (n div 10) @ [digit (n mod 10)])"
  by pat_completeness auto
termination
  by (relation "measure id") auto

definition zfill :: "nat \<Rightarrow> string \<Rightarrow> string" where
  "zfill w s = replicate (w - length s) (CHR ''0'') @ s"

definition strftime :: "timestamp \<Rightarrow> string" where
  "strftime t =
     zfill 2 (decimal (month t)) @ ''/'' @ zfill 2 (decimal (day t)) @ ''/'' @ decimal (year t)"

definition dt_strftime :: "timestamp option list \<Rightarrow> cell list" where
  "dt_strftime ts = map (map_option strftime) ts"

definition fillna :: "string \<Rightarrow> cell list \<Rightarrow> cell list" where
  "fillna v col = map (\<lambda>c. case c of None \<Rightarrow> Some v | Some s \<Rightarrow> Some s) col"

text \<open>
  The body of the loop over \<open>time_cols\<close>: two assignments to \<open>df[col]\<close>, each reading
  \<open>df[col]\<close> first. \<open>to_datetime\<close> is pandas' parser applied to a whole column with
  \<open>errors='coerce'\<close>; its result for one cell may depend on the other cells (pandas
  infers the format from the column), so it is a function of the column.
\<close>

definition normalize_col ::
  "(cell list \<Rightarrow> timestamp option list) \<Rightarrow> dataframe \<Rightarrow> string \<Rightarrow> exn + dataframe" where
  "normalize_col to_datetime df col =
     (case getitem df col of
        Inl e \<Rightarrow> Inl e
      | Inr vs \<Rightarrow>
          (case getitem (setitem df col (dt_strftime (to_datetime vs))) col of
             Inl e \<Rightarrow> Inl e
           | Inr vs' \<Rightarrow>
               Inr (setitem (setitem df col (dt_strftime (to_datetime vs))) col (fillna [] vs'))))"

fun normalize_loop ::
  "(cell list \<Rightarrow> timestamp option list) \<Rightarrow> dataframe \<Rightarrow> string list \<Rightarrow> exn + dataframe" where
  "normalize_loop to_datetime df [] = Inr df"
| "normalize_loop to_datetime df (col # cols) =
     (case normalize_col to_datetime df col of
        Inl e \<Rightarrow> Inl e
      | Inr df' \<Rightarrow> normalize_loop to_datetime df' cols)"

definition time_cols :: "string list" where
  "time_cols = [''Created'', ''Modified'', ''Opened by Me'']"

definition finish :: "(cell list \<Rightarrow> timestamp option list) \<Rightarrow> row list \<Rightarrow> exn + dataframe" where
  "finish to_datetime data_rows =
     (if \<not> df_empty (DataFrame data_rows)
      then normalize_loop to_datetime (DataFrame data_rows) time_cols
      else Inr (DataFrame data_rows))"

subsection \<open>The function\<close>

text \<open>
  \<open>build_service key_file owner\<close> is lines 9 to 13: the credentials read from the key
  file, with \<open>owner\<close> as subject, and the Drive client built from them, or the
  exception that raises. The result pairs the requests sent with the DataFrame
  returned or the exception raised; \<open>None\<close> is a run that does not return.
\<close>

definition report :: "(cell list \<Rightarrow> timestamp option list) \<Rightarrow> drive_file list \<Rightarrow> exn + dataframe" where
  "report to_datetime all_files =
     (case rows_loop [] all_files of
        Inl e \<Rightarrow> Inl e
      | Inr data_rows \<Rightarrow> finish to_datetime data_rows)"

definition user_shared_gems ::
  "(string \<Rightarrow> string \<Rightarrow> exn + service) \<Rightarrow> (cell list \<Rightarrow> timestamp option list)
     \<Rightarrow> string \<Rightarrow> string \<Rightarrow> (request list \<times> (exn + dataframe)) option" where
  "user_shared_gems build_service to_datetime owner service_account_file =
     (case build_service service_account_file owner of
        Inl e \<Rightarrow> Some ([], Inl e)
      | Inr svc \<Rightarrow>
          (case list_loop svc owner [] [] None of
             None \<Rightarrow> None
           | Some (sent, Inl e) \<Rightarrow> Some (sent, Inl e)
           | Some (sent, Inr all_files) \<Rightarrow> Some (sent, report to_datetime all_files)))"

section \<open>Describing runs and tables\<close>

text \<open>
  The definitions of this section are not code of the repository: they are the
  vocabulary in which the theorems speak about a run of the function.
\<close>

subsection \<open>The pages of a run\<close>

text \<open>
  \<open>page_chain svc owner tok pages\<close>: asked with page token \<open>tok\<close>, the service answers
  with the first page; every page but the last carries a next page token, with which
  the service answers the page after it; the last page carries none (the source tests
  \<open>not page_token\<close>, which holds of an absent token and of an empty one).
  \<open>failing_chain svc owner tok pages e\<close>: the service answers \<open>pages\<close> in the same way,
  each with a next page token, and raises \<open>e\<close> on the request after the last of them.
\<close>

fun page_chain :: "service \<Rightarrow> string \<Rightarrow> string option \<Rightarrow> response list \<Rightarrow> bool" where
  "page_chain svc owner tok [] = False"
| "page_chain svc owner tok [r] =
     (svc (list_request owner tok) = Inr r \<and> \<not> truthy (nextPageToken r))"
| "page_chain svc owner tok (r # r' # rs) =
     (svc (list_request owner tok) = Inr r \<and> truthy (nextPageToken r) \<and>
      page_chain svc owner (nextPageToken r) (r' # rs))"

fun failing_chain ::
  "service \<Rightarrow> string \<Rightarrow> string option \<Rightarrow> response list \<Rightarrow> exn \<Rightarrow> bool" where
  "failing_chain svc owner tok [] e = (svc (list_request owner tok) = Inl e)"
| "failing_chain svc owner tok (r # rs) e =
     (svc (list_request owner tok) = Inr r \<and> truthy (nextPageToken r) \<and>
      failing_chain svc owner (nextPageToken r) rs e)"

fun answered :: "service \<Rightarrow> string \<Rightarrow> string option \<Rightarrow> response list \<Rightarrow> bool" where
  "answered svc owner tok [] = True"
| "answered svc owner tok (r # rs) =
     (svc (list_request owner tok) = Inr r \<and> answered svc owner (nextPageToken r) rs)"

text \<open>
  The requests of a run that starts with token \<open>tok\<close> and receives \<open>pages\<close>: one with
  \<open>tok\<close>, then one with the next page token of each page received.
\<close>

definition requests_of :: "string \<Rightarrow> string option \<Rightarrow> response list \<Rightarrow> request list" where
  "requests_of owner tok pages = map (list_request owner) (tok # map nextPageToken pages)"

definition pages_files :: "response list \<Rightarrow> drive_file list" where
  "pages_files pages = concat (map get_files pages)"

definition run_of ::
  "service \<Rightarrow> string \<Rightarrow> request list \<Rightarrow> drive_file list \<Rightarrow> string option
     \<Rightarrow> request list \<times> (exn + drive_file list) \<Rightarrow> bool" where
  "run_of svc owner sent all_files tok out =
     (case snd out of
        Inr fs \<Rightarrow> (\<exists>pages. page_chain svc owner tok pages \<and>
                    fst out = sent @ requests_of owner tok (butlast pages) \<and>
                    fs = all_files @ pages_files pages)
      | Inl e \<Rightarrow> (\<exists>pages. failing_chain svc owner tok pages e \<and>
                    fst out = sent @ requests_of owner tok pages))"

subsection \<open>Rows and cells of the table\<close>

definition report_columns :: "string list" where
  "report_columns = [''File Name'', ''URL'', ''Owner'', ''Editor(s)'', ''Viewer(s)'',
     ''Created'', ''Modified'', ''Opened by Me'']"

definition row_of :: "drive_file \<Rightarrow> row" where
  "row_of file = (case make_row file of Inl e \<Rightarrow> [] | Inr r \<Rightarrow> r)"

definition cell_of :: "drive_file \<Rightarrow> string \<Rightarrow> cell" where
  "cell_of file k = lookup_cell (row_of file) k"

definition normalized :: "(cell list \<Rightarrow> timestamp option list) \<Rightarrow> cell list \<Rightarrow> cell list" where
  "normalized to_datetime vs = fillna [] (dt_strftime (to_datetime vs))"

definition table :: "(cell list \<Rightarrow> timestamp option list) \<Rightarrow> drive_file list \<Rightarrow> dataframe" where
  "table to_datetime fs =
     (if fs = [] then []
      else map (\<lambda>k. (k, if k \<in> set time_cols
                          then normalized to_datetime (map (\<lambda>f. cell_of f k) fs)
                          else map (\<lambda>f. cell_of f k) fs)) report_columns)"

definition nrows :: "dataframe \<Rightarrow> nat" where
  "nrows df = (case df of [] \<Rightarrow> 0 | (c, vs) # _ \<Rightarrow> length vs)"

definition df_row :: "dataframe \<Rightarrow> nat \<Rightarrow> row" where
  "df_row df i = map (\<lambda>(c, vs). (c, vs ! i)) df"

subsection \<open>Editors and viewers, in the words of the specification\<close>

definition perm_entries :: "drive_file \<Rightarrow> permission list" where
  "perm_entries file = (case permissions file of None \<Rightarrow> [] | Some ps \<Rightarrow> ps)"

definition is_editor :: "string \<Rightarrow> permission \<Rightarrow> bool" where
  "is_editor owner_email p = (identity p \<noteq> owner_email \<and> role p = Some ''writer'')"

definition is_viewer :: "string \<Rightarrow> permission \<Rightarrow> bool" where
  "is_viewer owner_email p =
     (identity p \<noteq> owner_email \<and> (role p = Some ''reader'' \<or> role p = Some ''commenter''))"

definition present :: "string option \<Rightarrow> bool" where
  "present v = (v \<noteq> None \<and> v \<noteq> Some [])"

definition identity_by_priority :: "permission \<Rightarrow> string" where
  "identity_by_priority p =
     (if present (emailAddress p) then the (emailAddress p)
      else if present (displayName p) then the (displayName p)
      else if present (domain p) then the (domain p)
      else ''Unknown'')"

subsection \<open>What is assumed of pandas\<close>


definition keeps_length :: "(cell list \<Rightarrow> timestamp option list) \<Rightarrow> bool" where
  "keeps_length to_datetime = (\<forall>col. length (to_datetime col) = length col)"


definition unparseable :: "(cell list \<Rightarrow> timestamp option list) \<Rightarrow> string \<Rightarrow> bool" where
  "unparseable to_datetime s =
     (\<forall>col i. i < length col \<longrightarrow> col ! i = Some s \<longrightarrow> to_datetime col ! i = None)"




subsection \<open>What is assumed of the Drive service\<close>

text \<open>
  Whether a file is in the trash is not among the fields requested, so it is a
  property of files outside the model, \<open>trashed\<close>. A service honours the filter when
  its answer to a query that ends in \<open>and trashed = false\<close> holds no trashed file.
\<close>

definition honours_trashed_filter :: "service \<Rightarrow> (drive_file \<Rightarrow> bool) \<Rightarrow> bool" where
  "honours_trashed_filter svc trashed =
     (\<forall>rq r. svc rq = Inr r \<longrightarrow> suffix '' and trashed = false'' (q rq) \<longrightarrow>
        (\<forall>f \<in> set (get_files r). \<not> trashed f))"

subsection \<open>A sample run\<close>

text \<open>
  A Drive with two Gems of \<open>ada@example.org\<close>, served on two pages, and a parser that
  knows the two time stamps that occur. The theorems are instantiated at them.
\<close>

definition sample_gem1 :: drive_file where
  "sample_gem1 =
     \<lparr>name = Some ''Tutor'', webViewLink = Some ''https://gemini.google.com/gem/1'',
      owners = Some [\<lparr>user_emailAddress = Some ''ada@example.org''\<rparr>],
      createdTime = Some ''2024-03-05T10:15:00.000Z'',
      modifiedTime = Some ''2024-03-06T09:00:00.000Z'',
      viewedByMeTime = None,
      permissions = Some
        [\<lparr>emailAddress = Some ''ada@example.org'', displayName = Some ''Ada'',
          domain = None, role = Some ''owner''\<rparr>,
         \<lparr>emailAddress = Some ''bob@example.org'', displayName = Some ''Bob'',
          domain = None, role = Some ''writer''\<rparr>,
         \<lparr>emailAddress = Some [], displayName = Some ''Sales'',
          domain = None, role = Some ''reader''\<rparr>,
         \<lparr>emailAddress = None, displayName = None,
          domain = Some ''example.org'', role = Some ''commenter''\<rparr>,
         \<lparr>emailAddress = None, displayName = None,
          domain = None, role = Some ''fileOrganizer''\<rparr>]\<rparr>"

definition sample_gem2 :: drive_file where
  "sample_gem2 =
     \<lparr>name = Some ''Planner'', webViewLink = None, owners = None,
      createdTime = None, modifiedTime = Some ''not a date'',
      viewedByMeTime = Some ''2024-03-06T09:00:00.000Z'', permissions = None\<rparr>"

definition sample_page1 :: response where
  "sample_page1 = \<lparr>files = Some [sample_gem1], nextPageToken = Some ''page-2''\<rparr>"

definition sample_page2 :: response where
  "sample_page2 = \<lparr>files = Some [sample_gem2], nextPageToken = None\<rparr>"

definition sample_service :: service where
  "sample_service rq =
     (if pageToken rq = None then Inr sample_page1
      else if pageToken rq = Some ''page-2'' then Inr sample_page2
      else Inl (ApiFailure ''invalid page token''))"

definition flaky_service :: service where
  "flaky_service rq =
     (if pageToken rq = None then Inr sample_page1
      else Inl (ApiFailure ''HttpError 500''))"


definition sample_build :: "string \<Rightarrow> string \<Rightarrow> exn + service" where
  "sample_build key_file subject =
     (if key_file = ''service_account_key.json'' then Inr sample_service
      else Inl (ApiFailure ''FileNotFoundError''))"

definition flaky_build :: "string \<Rightarrow> string \<Rightarrow> exn + service" where
  "flaky_build key_file subject = Inr flaky_service"


definition sample_parse :: "string \<Rightarrow> timestamp option" where
  "sample_parse s =
     (if s = ''2024-03-05T10:15:00.000Z'' then Some \<lparr>year = 2024, month = 3, day = 5\<rparr>
      else if s = ''2024-03-06T09:00:00.000Z'' then Some \<lparr>year = 2024, month = 3, day = 6\<rparr>
      else None)"

definition sample_to_datetime :: "cell list \<Rightarrow> timestamp option list" where
  "sample_to_datetime col = map (\<lambda>c. case c of None \<Rightarrow> None | Some s \<Rightarrow> sample_parse s) col"

definition sample_trashed :: "drive_file \<Rightarrow> bool" where
  "sample_trashed f = (name f = Some ''Old draft'')"

section \<open>Lemmas\<close>

subsection \<open>The pagination loop\<close>

lemma requests_of_Cons:
  "requests_of owner tok (r # rs) =
     list_request owner tok # requests_of owner (nextPageToken r) rs"
  by (simp add: requests_of_def)

lemma list_loop_pages:
  "page_chain svc owner tok pages \<Longrightarrow>
   list_loop svc owner sent all_files tok =
     Some (sent @ requests_of owner tok (butlast pages), Inr (all_files @ pages_files pages))"
proof (induction svc owner tok pages arbitrary: sent all_files rule: page_chain.induct)
  case (1 svc owner tok)
  then show ?case by simp
next
  case (2 svc owner tok r)
  then show ?case
    by (subst list_loop.simps) (simp add: requests_of_def pages_files_def)
next
  case (3 svc owner tok r r' rs)
  then show ?case
    by (subst list_loop.simps) (simp add: requests_of_Cons pages_files_def)
qed

lemma list_loop_fails:
  "failing_chain svc owner tok pages e \<Longrightarrow>
   list_loop svc owner sent all_files tok = Some (sent @ requests_of owner tok pages, Inl e)"
proof (induction pages arbitrary: tok sent all_files)
  case Nil
  then show ?case
    by (subst list_loop.simps) (simp add: requests_of_def)
next
  case (Cons r rs)
  then show ?case
    by (subst list_loop.simps) (simp add: requests_of_Cons)
qed

text \<open>Conversely, a run of the loop that ends is one of the two kinds of run.\<close>

lemma list_loop_run:
  "list_loop svc owner sent all_files tok = Some out \<Longrightarrow> run_of svc owner sent all_files tok out"
proof (induction rule: list_loop.raw_induct[rotated 1, consumes 1])
  case (1 loop svc owner sent all_files tok out)
  show ?case
  proof (cases "svc (list_request owner tok)")
    case (Inl e)
    with 1(2) have "out = (sent @ [list_request owner tok], Inl e)" by simp
    moreover have "failing_chain svc owner tok [] e" using Inl by simp
    ultimately show ?thesis
      unfolding run_of_def by (auto simp: requests_of_def intro!: exI[of _ "[]"])
  next
    case (Inr r)
    show ?thesis
    proof (cases "truthy (nextPageToken r)")
      case False
      with 1(2) Inr have "out = (sent @ [list_request owner tok], Inr (all_files @ get_files r))"
        by simp
      moreover have "page_chain svc owner tok [r]" using Inr False by simp
      ultimately show ?thesis
        unfolding run_of_def
        by (auto simp: requests_of_def pages_files_def intro!: exI[of _ "[r]"])
    next
      case True
      with 1(2) Inr have
        "loop svc owner (sent @ [list_request owner tok]) (all_files @ get_files r)
           (nextPageToken r) = Some out"
        by simp
      from 1(1)[OF this] have
        run: "run_of svc owner (sent @ [list_request owner tok]) (all_files @ get_files r)
                (nextPageToken r) out" .
      show ?thesis
      proof (cases "snd out")
        case (Inl e)
        with run obtain rs where "failing_chain svc owner (nextPageToken r) rs e"
          "fst out = (sent @ [list_request owner tok]) @ requests_of owner (nextPageToken r) rs"
          unfolding run_of_def by auto
        then have "failing_chain svc owner tok (r # rs) e \<and>
            fst out = sent @ requests_of owner tok (r # rs)"
          using \<open>svc (list_request owner tok) = Inr r\<close> True by (simp add: requests_of_Cons)
        then have "\<exists>pages. failing_chain svc owner tok pages e \<and>
            fst out = sent @ requests_of owner tok pages" by blast
        then show ?thesis unfolding run_of_def by (simp add: Inl)
      next
        case (Inr fs)
        with run obtain rs where rs: "page_chain svc owner (nextPageToken r) rs"
          "fst out = (sent @ [list_request owner tok]) @
             requests_of owner (nextPageToken r) (butlast rs)"
          "fs = (all_files @ get_files r) @ pages_files rs"
          unfolding run_of_def by auto
        from rs(1) obtain r' rs' where "rs = r' # rs'" by (cases rs) auto
        with rs have "page_chain svc owner tok (r # rs) \<and>
            fst out = sent @ requests_of owner tok (butlast (r # rs)) \<and>
            fs = all_files @ pages_files (r # rs)"
          using \<open>svc (list_request owner tok) = Inr r\<close> True
          by (simp add: requests_of_Cons pages_files_def)
        then have "\<exists>pages. page_chain svc owner tok pages \<and>
            fst out = sent @ requests_of owner tok (butlast pages) \<and>
            fs = all_files @ pages_files pages" by blast
        then show ?thesis unfolding run_of_def by (simp add: Inr)
      qed
    qed
  qed
qed

lemma page_chain_answered: "page_chain svc owner tok pages \<Longrightarrow> answered svc owner tok pages"
  by (induction svc owner tok pages rule: page_chain.induct) simp_all

lemma failing_chain_answered:
  "failing_chain svc owner tok pages e \<Longrightarrow> answered svc owner tok pages"
  by (induction pages arbitrary: tok) simp_all

lemma answered_butlast: "answered svc owner tok pages \<Longrightarrow> answered svc owner tok (butlast pages)"
  by (induction svc owner tok pages rule: answered.induct) simp_all

lemma answered_nth:
  "answered svc owner tok pages \<Longrightarrow> k < length pages \<Longrightarrow>
   svc (requests_of owner tok pages ! k) = Inr (pages ! k)"
proof (induction pages arbitrary: tok k)
  case Nil
  then show ?case by simp
next
  case (Cons r rs)
  then show ?case by (cases k) (simp_all add: requests_of_Cons)
qed

lemma failing_chain_last:
  "failing_chain svc owner tok pages e \<Longrightarrow>
   svc (requests_of owner tok pages ! length pages) = Inl e"
  by (induction pages arbitrary: tok) (simp_all add: requests_of_Cons, simp add: requests_of_def)

lemma length_requests_of: "length (requests_of owner tok pages) = Suc (length pages)"
  by (simp add: requests_of_def)

lemma requests_of_nth_token:
  "k \<le> length pages \<Longrightarrow>
   requests_of owner tok pages ! k = list_request owner ((tok # map nextPageToken pages) ! k)"
  unfolding requests_of_def by (rule nth_map) simp

subsection \<open>Rows\<close>

lemma perm_loop_filter:
  "perm_loop e (editors, viewers) ps =
     (editors @ map identity (filter (is_editor e) ps),
      viewers @ map identity (filter (is_viewer e) ps))"
  by (induction ps arbitrary: editors viewers) (auto simp: is_editor_def is_viewer_def)

lemma owner_email_of_Inr: "owners f \<noteq> Some [] \<Longrightarrow> \<exists>e. owner_email_of f = Inr e"
  by (auto simp: owner_email_of_def split: option.splits list.splits)

lemma owner_email_of_owners: "owner_email_of f = Inr e \<Longrightarrow> owners f \<noteq> Some []"
  by (auto simp: owner_email_of_def split: option.splits list.splits)

lemma owner_email_of_Inl: "owners f = Some [] \<Longrightarrow> owner_email_of f = Inl IndexError"
  by (simp add: owner_email_of_def)

lemma row_of_explicit:
  assumes "owner_email_of f = Inr e"
  shows "row_of f =
     [(''File Name'', name f),
      (''URL'', webViewLink f),
      (''Owner'', Some e),
      (''Editor(s)'', Some (join '', '' (map identity (filter (is_editor e) (perm_entries f))))),
      (''Viewer(s)'', Some (join '', '' (map identity (filter (is_viewer e) (perm_entries f))))),
      (''Created'', createdTime f),
      (''Modified'', modifiedTime f),
      (''Opened by Me'', Some (case viewedByMeTime f of None \<Rightarrow> ''Never'' | Some t \<Rightarrow> t))]"
proof (cases "permissions f")
  case None
  then show ?thesis
    by (simp add: row_of_def make_row_def assms perm_entries_def)
next
  case (Some ps)
  then show ?thesis
    by (simp add: row_of_def make_row_def assms perm_entries_def perm_loop_filter)
qed

lemma make_row_cases:
  "make_row f = (if owners f = Some [] then Inl IndexError else Inr (row_of f))"
proof (cases "owners f = Some []")
  case True
  then show ?thesis by (simp add: make_row_def owner_email_of_Inl)
next
  case False
  then obtain e where "owner_email_of f = Inr e" using owner_email_of_Inr by blast
  with False show ?thesis
    by (simp add: make_row_def row_of_def split: prod.splits)
qed

lemma row_of_keys: "owners f \<noteq> Some [] \<Longrightarrow> map fst (row_of f) = report_columns"
  using owner_email_of_Inr[of f] by (auto simp: row_of_explicit report_columns_def)

lemma cell_of_plain:
  assumes "owners f \<noteq> Some []"
  shows "cell_of f ''File Name'' = name f"
    and "cell_of f ''URL'' = webViewLink f"
    and "cell_of f ''Created'' = createdTime f"
    and "cell_of f ''Modified'' = modifiedTime f"
    and "cell_of f ''Opened by Me'' =
           Some (case viewedByMeTime f of None \<Rightarrow> ''Never'' | Some t \<Rightarrow> t)"
proof -
  obtain e where "owner_email_of f = Inr e" using owner_email_of_Inr[OF assms] by blast
  note row = row_of_explicit[OF this]
  show "cell_of f ''File Name'' = name f"
    and "cell_of f ''URL'' = webViewLink f"
    and "cell_of f ''Created'' = createdTime f"
    and "cell_of f ''Modified'' = modifiedTime f"
    and "cell_of f ''Opened by Me'' =
           Some (case viewedByMeTime f of None \<Rightarrow> ''Never'' | Some t \<Rightarrow> t)"
    by (simp_all add: cell_of_def row lookup_cell_def)
qed

lemma cell_of_people:
  assumes "owner_email_of f = Inr e"
  shows "cell_of f ''Owner'' = Some e"
    and "cell_of f ''Editor(s)'' =
           Some (join '', '' (map identity (filter (is_editor e) (perm_entries f))))"
    and "cell_of f ''Viewer(s)'' =
           Some (join '', '' (map identity (filter (is_viewer e) (perm_entries f))))"
  by (simp_all add: cell_of_def row_of_explicit[OF assms] lookup_cell_def)

lemma rows_loop_cases:
  "rows_loop acc fs =
     (if \<forall>f \<in> set fs. owners f \<noteq> Some [] then Inr (acc @ map row_of fs) else Inl IndexError)"
  by (induction fs arbitrary: acc) (simp_all add: make_row_cases)

subsection \<open>The table\<close>

lemma DataFrame_rows:
  assumes "fs \<noteq> []" and "\<forall>f \<in> set fs. owners f \<noteq> Some []"
  shows "DataFrame (map row_of fs) = map (\<lambda>k. (k, map (\<lambda>f. cell_of f k) fs)) report_columns"
proof -
  from assms obtain f fs' where fs: "fs = f # fs'" and f: "owners f \<noteq> Some []"
    by (cases fs) auto
  show ?thesis
    by (simp add: DataFrame_def fs row_of_keys[OF f] cell_of_def)
qed

lemma normalize_table:
  "normalize_loop to_datetime (map (\<lambda>k. (k, col k)) report_columns) time_cols =
     Inr (map (\<lambda>k. (k, if k \<in> set time_cols then normalized to_datetime (col k) else col k))
            report_columns)"
  by (simp add: report_columns_def time_cols_def normalize_col_def getitem_def normalized_def)

text \<open>
  What lines 32 to 66 compute from the files of all pages: the table, unless a file
  has an empty list of owners, on which \<open>[0]\<close> raises.
\<close>

lemma report_cases:
  "report to_datetime fs =
     (if \<forall>f \<in> set fs. owners f \<noteq> Some [] then Inr (table to_datetime fs) else Inl IndexError)"
proof (cases "fs = []")
  case True
  then show ?thesis
    by (simp add: report_def table_def finish_def DataFrame_def df_empty_def)
next
  case False
  show ?thesis
  proof (cases "\<forall>f \<in> set fs. owners f \<noteq> Some []")
    case bad: False
    then have "rows_loop [] fs = Inl IndexError"
      by (subst rows_loop_cases) simp
    with bad show ?thesis by (simp add: report_def)
  next
    case True
    have ne: "\<not> df_empty (map (\<lambda>k. (k, map (\<lambda>f. cell_of f k) fs)) report_columns)"
      using False by (simp add: df_empty_def report_columns_def)
    have "rows_loop [] fs = Inr (map row_of fs)"
      using True by (subst rows_loop_cases) simp
    moreover have "finish to_datetime (map row_of fs) = Inr (table to_datetime fs)"
      using True False ne
      by (simp add: finish_def DataFrame_rows normalize_table table_def)
    ultimately show ?thesis using True by (simp add: report_def)
  qed
qed



lemma table_nrows: "nrows (table to_datetime fs) = length fs"
  by (simp add: table_def nrows_def report_columns_def time_cols_def)

lemma table_empty: "df_empty (table to_datetime fs) \<longleftrightarrow> fs = []"
  by (simp add: table_def df_empty_def report_columns_def time_cols_def)

lemma table_getitem:
  "fs \<noteq> [] \<Longrightarrow> k \<in> set report_columns \<Longrightarrow>
   map_of (table to_datetime fs) k =
     Some (if k \<in> set time_cols then normalized to_datetime (map (\<lambda>f. cell_of f k) fs)
           else map (\<lambda>f. cell_of f k) fs)"
  by (auto simp: table_def map_of_map_restrict restrict_map_def)

lemma lookup_df_row: "map_of df k = Some vs \<Longrightarrow> lookup_cell (df_row df i) k = vs ! i"
  by (induction df) (auto simp: lookup_cell_def df_row_def)

lemma table_cell:
  assumes "fs \<noteq> []" "k \<in> set report_columns"
  shows "lookup_cell (df_row (table to_datetime fs) i) k =
     (if k \<in> set time_cols then normalized to_datetime (map (\<lambda>f. cell_of f k) fs) ! i
      else map (\<lambda>f. cell_of f k) fs ! i)"
  using lookup_df_row[OF table_getitem[OF assms]] by (simp split: if_splits)




lemma normalized_nth:
  assumes "keeps_length to_datetime" and "i < length vs"
  shows "normalized to_datetime vs ! i =
     Some (case to_datetime vs ! i of None \<Rightarrow> [] | Some t \<Rightarrow> strftime t)"
proof -
  have "i < length (to_datetime vs)" using assms by (simp add: keeps_length_def)
  then show ?thesis
    by (simp add: normalized_def fillna_def dt_strftime_def split: option.splits)
qed

subsection \<open>Dates\<close>

declare decimal.simps [simp del]










subsection \<open>The function, run by run\<close>

lemma user_shared_gems_pages:
  assumes "build_service key owner = Inr svc" and "page_chain svc owner None pages"
  shows "user_shared_gems build_service to_datetime owner key =
     Some (requests_of owner None (butlast pages), report to_datetime (pages_files pages))"
  using list_loop_pages[OF assms(2), of "[]" "[]"]
  by (simp add: user_shared_gems_def assms(1))

lemma user_shared_gems_fails:
  assumes "build_service key owner = Inr svc" and "failing_chain svc owner None pages e"
  shows "user_shared_gems build_service to_datetime owner key =
     Some (requests_of owner None pages, Inl e)"
  using list_loop_fails[OF assms(2), of "[]" "[]"]
  by (simp add: user_shared_gems_def assms(1))

lemma user_shared_gems_run:
  assumes "build_service key owner = Inr svc"
    and "user_shared_gems build_service to_datetime owner key = Some (sent, res)"
  shows "(\<exists>pages. page_chain svc owner None pages \<and>
            sent = requests_of owner None (butlast pages) \<and>
            res = report to_datetime (pages_files pages)) \<or>
         (\<exists>pages e. failing_chain svc owner None pages e \<and>
            sent = requests_of owner None pages \<and> res = Inl e)"
proof -
  from assms obtain out where loop: "list_loop svc owner [] [] None = Some out"
    by (auto simp: user_shared_gems_def split: option.splits)
  from list_loop_run[OF loop] have run: "run_of svc owner [] [] None out" .
  show ?thesis
  proof (cases "snd out")
    case (Inl e)
    then have out: "out = (fst out, Inl e)" by (cases out) simp
    from run Inl obtain pages where "failing_chain svc owner None pages e"
      "fst out = requests_of owner None pages"
      unfolding run_of_def by auto
    moreover have "sent = fst out" "res = Inl e"
      using assms loop out by (auto simp: user_shared_gems_def split: prod.splits)
    ultimately show ?thesis by blast
  next
    case (Inr fs)
    then have out: "out = (fst out, Inr fs)" by (cases out) simp
    from run Inr obtain pages where "page_chain svc owner None pages"
      "fst out = requests_of owner None (butlast pages)" "fs = pages_files pages"
      unfolding run_of_def by auto
    moreover have "sent = fst out" "res = report to_datetime fs"
      using assms loop out by (auto simp: user_shared_gems_def split: prod.splits)
    ultimately show ?thesis by blast
  qed
qed

text \<open>A DataFrame is returned only by a run that received all its pages.\<close>

lemma user_shared_gems_returns:
  assumes "user_shared_gems build_service to_datetime owner key = Some (sent, Inr df)"
  shows "\<exists>svc pages. build_service key owner = Inr svc \<and> page_chain svc owner None pages \<and>
           sent = requests_of owner None (butlast pages) \<and>
           (\<forall>f \<in> set (pages_files pages). owners f \<noteq> Some []) \<and>
           df = table to_datetime (pages_files pages)"
proof -
  from assms obtain svc where svc: "build_service key owner = Inr svc"
    by (auto simp: user_shared_gems_def split: sum.splits)
  from user_shared_gems_run[OF svc assms] obtain pages where
    pages: "page_chain svc owner None pages" "sent = requests_of owner None (butlast pages)"
      "Inr df = report to_datetime (pages_files pages)"
    by auto
  from pages(3) have "(\<forall>f \<in> set (pages_files pages). owners f \<noteq> Some []) \<and>
      df = table to_datetime (pages_files pages)"
    by (subst (asm) report_cases) (simp split: if_splits)
  with svc pages(1,2) show ?thesis by blast
qed

lemma returned_table:
  assumes "build_service key owner = Inr svc" and "page_chain svc owner None pages"
    and "user_shared_gems build_service to_datetime owner key = Some (sent, Inr df)"
  shows "(\<forall>f \<in> set (pages_files pages). owners f \<noteq> Some []) \<and>
         df = table to_datetime (pages_files pages)"
proof -
  from user_shared_gems_pages[where build_service = build_service
      and to_datetime = to_datetime, OF assms(1,2)] assms(3)
  have "report to_datetime (pages_files pages) = Inr df" by simp
  then show ?thesis
    by (subst (asm) report_cases) (simp split: if_splits)
qed

lemma user_shared_gems_requests:
  assumes "build_service key owner = Inr svc"
    and "user_shared_gems build_service to_datetime owner key = Some (sent, res)"
  shows "\<exists>pages. sent = requests_of owner None pages \<and> answered svc owner None pages"
  using user_shared_gems_run[OF assms]
proof (elim disjE exE conjE)
  fix pages
  assume "page_chain svc owner None pages" "sent = requests_of owner None (butlast pages)"
  then show ?thesis
    using answered_butlast[OF page_chain_answered] by blast
next
  fix pages e
  assume "failing_chain svc owner None pages e" "sent = requests_of owner None pages"
  then show ?thesis
    using failing_chain_answered by blast
qed



lemma requests_of_query: "rq \<in> set (requests_of owner tok pages) \<Longrightarrow> q rq = query owner"
  by (auto simp: requests_of_def list_request_def)

lemma query_suffix: "suffix '' and trashed = false'' (query owner)"
proof -
  have "query owner =
      (''mimeType = '' @ apostrophe @ GEM_MIME_TYPE @ apostrophe @ '' and '' @
       apostrophe @ owner @ apostrophe @ '' in owners'') @ '' and trashed = false''"
    by (simp add: query_def)
  then show ?thesis by (metis suffixI)
qed

lemma fields_spec_permissions: "sublist ''permissions'' fields_spec"
proof -
  have "fields_spec =
      ''nextPageToken, files(id, name, owners, createdTime, modifiedTime, webViewLink, viewedByMeTime, '' @
      ''permissions'' @ '')''"
    by (simp add: fields_spec_def)
  then show ?thesis by (metis sublist_appendI)
qed

lemma page_chain_files_answered:
  assumes "page_chain svc owner tok pages" and "f \<in> set (pages_files pages)"
  shows "\<exists>tok' r. svc (list_request owner tok') = Inr r \<and> f \<in> set (get_files r)"
proof -
  from assms(2) obtain r where r: "r \<in> set pages" "f \<in> set (get_files r)"
    by (auto simp: pages_files_def)
  then obtain k where k: "k < length pages" "pages ! k = r"
    by (auto simp: in_set_conv_nth)
  from answered_nth[OF page_chain_answered[OF assms(1)] k(1)] k(2)
  have "svc (requests_of owner tok pages ! k) = Inr r" by simp
  moreover have "requests_of owner tok pages ! k =
      list_request owner ((tok # map nextPageToken pages) ! k)"
    using k(1) by (intro requests_of_nth_token) simp
  ultimately show ?thesis using r(2) by auto
qed

subsection \<open>The sample run\<close>

lemma sample_chain:
  "page_chain sample_service ''ada@example.org'' None [sample_page1, sample_page2]"
  by (simp add: sample_service_def list_request_def sample_page1_def sample_page2_def truthy_def)

lemma flaky_chain:
  "failing_chain flaky_service ''ada@example.org'' None [sample_page1]
     (ApiFailure ''HttpError 500'')"
  by (simp add: flaky_service_def list_request_def sample_page1_def truthy_def)

lemma sample_build:
  "sample_build ''service_account_key.json'' ''ada@example.org'' = Inr sample_service"
  by (simp add: sample_build_def)

lemma flaky_build:
  "flaky_build ''service_account_key.json'' ''ada@example.org'' = Inr flaky_service"
  by (simp add: flaky_build_def)

lemma sample_files:
  "pages_files [sample_page1, sample_page2] = [sample_gem1, sample_gem2]"
  by (simp add: pages_files_def get_files_def sample_page1_def sample_page2_def)

lemma sample_owners:
  "\<forall>f \<in> set (pages_files [sample_page1, sample_page2]). owners f \<noteq> Some []"
  by (simp add: sample_files sample_gem1_def sample_gem2_def)

lemma sample_keeps_length: "keeps_length sample_to_datetime"
  by (simp add: keeps_length_def sample_to_datetime_def)


lemma sample_unparseable: "unparseable sample_to_datetime ''Never''"
  by (simp add: unparseable_def sample_to_datetime_def sample_parse_def)



lemma sample_honours: "honours_trashed_filter sample_service sample_trashed"
  by (auto simp: honours_trashed_filter_def sample_service_def sample_trashed_def get_files_def
      sample_page1_def sample_page2_def sample_gem1_def sample_gem2_def split: if_splits)

lemma sample_run:
  "user_shared_gems sample_build sample_to_datetime
       ''ada@example.org'' ''service_account_key.json'' =
     Some ([list_request ''ada@example.org'' None,
            list_request ''ada@example.org'' (Some ''page-2'')],
           Inr (table sample_to_datetime [sample_gem1, sample_gem2]))"
proof -
  have "requests_of ''ada@example.org'' None (butlast [sample_page1, sample_page2]) =
      [list_request ''ada@example.org'' None,
       list_request ''ada@example.org'' (Some ''page-2'')]"
    by (simp add: requests_of_def sample_page1_def)
  then show ?thesis
    using user_shared_gems_pages[where build_service = sample_build
        and to_datetime = sample_to_datetime, OF sample_build sample_chain] sample_owners
    by (simp add: report_cases sample_files)
qed

section \<open>The claims\<close>

text \<open>
  C4. If a call of the file listing raises, \<open>user_shared_gems\<close> raises the same
  exception and returns no DataFrame; nothing is retried or recovered. Stated for a
  failure at any position: the service has answered any number of pages, each with a
  next page token, and raises \<open>e\<close> on the request that follows. The outcome is \<open>e\<close>
  itself, and the requests sent are those pages' requests and the failing one, each
  once, the failing one last.
\<close>

theorem api_failure_propagates:
  assumes "build_service service_account_file owner = Inr svc"
    and "failing_chain svc owner None pages e"
  shows "user_shared_gems build_service to_datetime owner service_account_file =
     Some (requests_of owner None pages, Inl e)"
  using assms by (rule user_shared_gems_fails)

theorem api_failure_propagates_witness:
  "user_shared_gems flaky_build sample_to_datetime
       ''ada@example.org'' ''service_account_key.json'' =
     Some ([list_request ''ada@example.org'' None,
            list_request ''ada@example.org'' (Some ''page-2'')],
           Inl (ApiFailure ''HttpError 500''))"
  using api_failure_propagates[where build_service = flaky_build
      and to_datetime = sample_to_datetime, OF flaky_build flaky_chain]
  by (simp add: requests_of_def sample_page1_def)





text \<open>
  C2. The permissions of a file are split into its editors and its viewers: an entry
  whose identity is the file's owner email is skipped; of the others, one with role
  \<open>writer\<close> gives its identity to Editor(s), one with role \<open>reader\<close> or \<open>commenter\<close>
  gives it to Viewer(s), one with any other role (or none) gives nothing; each list is
  joined with a comma and a space. \<open>is_editor\<close> and \<open>is_viewer\<close> say this in the
  claim's words; the theorem is that the cells of row \<open>i\<close> of the returned DataFrame
  are the joined identities of the entries of file \<open>i\<close> they select, in the order of
  the entries, the owner email being the one line 34 reads from the file.
\<close>

theorem editors_and_viewers:
  fixes pages :: "response list"
  defines "fs \<equiv> pages_files pages"
  assumes "build_service service_account_file owner = Inr svc"
    and "page_chain svc owner None pages"
    and "user_shared_gems build_service to_datetime owner service_account_file =
      Some (sent, Inr df)"
    and "i < length fs"
  shows "\<exists>owner_email.
     owner_email_of (fs ! i) = Inr owner_email \<and>
     lookup_cell (df_row df i) ''Owner'' = Some owner_email \<and>
     lookup_cell (df_row df i) ''Editor(s)'' =
       Some (join '', '' (map identity (filter (is_editor owner_email) (perm_entries (fs ! i))))) \<and>
     lookup_cell (df_row df i) ''Viewer(s)'' =
       Some (join '', '' (map identity (filter (is_viewer owner_email) (perm_entries (fs ! i)))))"
proof -
  from returned_table[OF assms(2,3,4)]
  have owners: "\<forall>f \<in> set fs. owners f \<noteq> Some []" and df: "df = table to_datetime fs"
    by (simp_all add: fs_def)
  from assms(5) have ne: "fs \<noteq> []" by auto
  from assms(5) owners have "owners (fs ! i) \<noteq> Some []" by simp
  then obtain owner_email where own: "owner_email_of (fs ! i) = Inr owner_email"
    using owner_email_of_Inr by blast
  have cell: "lookup_cell (df_row df i) k = cell_of (fs ! i) k"
    if "k \<in> set report_columns" "k \<notin> set time_cols" for k
    using table_cell[OF ne that(1), of to_datetime i] that(2) assms(5) by (simp add: df)
  have "lookup_cell (df_row df i) ''Owner'' = cell_of (fs ! i) ''Owner''"
    "lookup_cell (df_row df i) ''Editor(s)'' = cell_of (fs ! i) ''Editor(s)''"
    "lookup_cell (df_row df i) ''Viewer(s)'' = cell_of (fs ! i) ''Viewer(s)''"
    by (rule cell; simp add: report_columns_def time_cols_def)+
  with cell_of_people[OF own] own show ?thesis by simp
qed

theorem editors_and_viewers_witness:
  "\<exists>sent df.
     user_shared_gems sample_build sample_to_datetime
       ''ada@example.org'' ''service_account_key.json'' = Some (sent, Inr df) \<and>
     lookup_cell (df_row df 0) ''Owner'' = Some ''ada@example.org'' \<and>
     lookup_cell (df_row df 0) ''Editor(s)'' = Some ''bob@example.org'' \<and>
     lookup_cell (df_row df 0) ''Viewer(s)'' = Some ''Sales, example.org''"
proof -
  have i: "0 < length (pages_files [sample_page1, sample_page2])"
    by (simp add: sample_files)
  have own: "owner_email_of (pages_files [sample_page1, sample_page2] ! 0) =
      Inr ''ada@example.org''"
    by (simp add: sample_files owner_email_of_def sample_gem1_def)
  have ps: "perm_entries (pages_files [sample_page1, sample_page2] ! 0) =
      the (permissions sample_gem1)"
    by (simp add: sample_files perm_entries_def sample_gem1_def)
  have ed: "map identity (filter (is_editor ''ada@example.org'') (the (permissions sample_gem1))) =
      [''bob@example.org'']"
    by (simp add: sample_gem1_def is_editor_def identity_def py_or_def or_literal_def truthy_def)
  have vw: "map identity (filter (is_viewer ''ada@example.org'') (the (permissions sample_gem1))) =
      [''Sales'', ''example.org'']"
    by (simp add: sample_gem1_def is_viewer_def identity_def py_or_def or_literal_def truthy_def)
  from editors_and_viewers[OF sample_build sample_chain sample_run i]
  show ?thesis
    unfolding own ps using ed vw sample_run by auto
qed

text \<open>
  C8. The identity of a permission entry is its \<open>emailAddress\<close> if that is present and
  not empty, else its \<open>displayName\<close> if that is present and not empty, else its
  \<open>domain\<close> if that is present and not empty, else the string \<open>Unknown\<close>.
  \<open>identity\<close> is the source's chain of \<open>or\<close>, \<open>identity_by_priority\<close> the claim's
  chain of cases; they agree, and the loop over the permissions adds nothing but
  identities so resolved.
\<close>

theorem identity_priority:
  "identity perm = identity_by_priority perm \<and>
   perm_loop owner_email (editors, viewers) perms =
     (editors @ map identity_by_priority (filter (is_editor owner_email) perms),
      viewers @ map identity_by_priority (filter (is_viewer owner_email) perms))"
proof -
  have eq: "identity p = identity_by_priority p" for p
    by (cases "emailAddress p"; cases "displayName p"; cases "domain p")
       (simp_all add: identity_def identity_by_priority_def present_def py_or_def
          or_literal_def truthy_def)
  then have "identity = identity_by_priority" by (rule ext)
  then show ?thesis
    using perm_loop_filter[of owner_email editors viewers perms] by simp
qed

theorem identity_priority_witness:
  "identity \<lparr>emailAddress = Some [], displayName = None, domain = Some ''example.org'',
              role = Some ''reader''\<rparr> = ''example.org'' \<and>
   identity \<lparr>emailAddress = None, displayName = Some [], domain = None,
              role = Some ''writer''\<rparr> = ''Unknown''"
  using identity_priority[of "\<lparr>emailAddress = Some [], displayName = None,
        domain = Some ''example.org'', role = Some ''reader''\<rparr>" "[]" "[]" "[]" "[]"]
    identity_priority[of "\<lparr>emailAddress = None, displayName = Some [],
        domain = None, role = Some ''writer''\<rparr>" "[]" "[]" "[]" "[]"]
  by (simp add: identity_by_priority_def present_def)

text \<open>
  C9. A file without \<open>viewedByMeTime\<close> gets the placeholder \<open>Never\<close> in its row
  (line 57), and the returned DataFrame, which is then not empty, shows the empty
  string in its Opened by Me cell: the parser does not read \<open>Never\<close> as a date, so
  the value becomes \<open>NaT\<close> and \<open>fillna\<close> writes the empty string. That pandas
  cannot parse \<open>Never\<close> is the hypothesis \<open>unparseable\<close>.
\<close>

theorem never_opened_is_blank:
  fixes pages :: "response list"
  defines "fs \<equiv> pages_files pages"
  assumes "build_service service_account_file owner = Inr svc"
    and "page_chain svc owner None pages"
    and "user_shared_gems build_service to_datetime owner service_account_file =
      Some (sent, Inr df)"
    and "i < length fs"
    and "viewedByMeTime (fs ! i) = None"
    and "keeps_length to_datetime"
    and "unparseable to_datetime ''Never''"
  shows "\<not> df_empty df \<and>
     cell_of (fs ! i) ''Opened by Me'' = Some ''Never'' \<and>
     lookup_cell (df_row df i) ''Opened by Me'' = Some []"
proof -
  let ?col = "map (\<lambda>f. cell_of f ''Opened by Me'') fs"
  from returned_table[OF assms(2,3,4)]
  have owners: "\<forall>f \<in> set fs. owners f \<noteq> Some []" and df: "df = table to_datetime fs"
    by (simp_all add: fs_def)
  from assms(5) have ne: "fs \<noteq> []" by auto
  from owners assms(5) have own: "owners (fs ! i) \<noteq> Some []" by simp
  have raw: "cell_of (fs ! i) ''Opened by Me'' = Some ''Never''"
    using cell_of_plain(5)[OF own] assms(6) by simp
  have i: "i < length ?col" using assms(5) by simp
  have "?col ! i = Some ''Never''" using raw assms(5) by simp
  with assms(8) i have nat: "to_datetime ?col ! i = None"
    unfolding unparseable_def by blast
  have "lookup_cell (df_row df i) ''Opened by Me'' = normalized to_datetime ?col ! i"
    using table_cell[OF ne, of "''Opened by Me''" to_datetime i]
    by (simp add: report_columns_def time_cols_def df)
  also have "\<dots> = Some []"
    using normalized_nth[OF assms(7) i] nat by simp
  finally have "lookup_cell (df_row df i) ''Opened by Me'' = Some []" .
  moreover have "\<not> df_empty df" using ne by (simp add: table_empty df)
  ultimately show ?thesis using raw by blast
qed

theorem never_opened_is_blank_witness:
  "\<exists>sent df.
     user_shared_gems sample_build sample_to_datetime
       ''ada@example.org'' ''service_account_key.json'' = Some (sent, Inr df) \<and>
     \<not> df_empty df \<and>
     viewedByMeTime sample_gem1 = None \<and>
     lookup_cell (df_row df 0) ''Opened by Me'' = Some []"
proof -
  have i: "0 < length (pages_files [sample_page1, sample_page2])"
    by (simp add: sample_files)
  have v: "viewedByMeTime (pages_files [sample_page1, sample_page2] ! 0) = None"
    by (simp add: sample_files sample_gem1_def)
  from never_opened_is_blank[OF sample_build sample_chain sample_run i v
      sample_keeps_length sample_unparseable] sample_run
  show ?thesis
    by (auto simp: sample_gem1_def)
qed



text \<open>
  C6. Every request sent to the file listing asks for the files whose MIME type is
  \<open>application/vnd.google-gemini.gem\<close> and among whose owners is the given owner,
  with page size 100 and a page token, and for a field set that includes
  \<open>permissions\<close>. Stated of the requests a run has sent when it ends, whatever its
  outcome: each carries the query string of line 14 for this owner, page size 100 and
  the field string of line 15, in which \<open>permissions\<close> occurs; the first carries no
  page token, and each later one carries the next page token of the response to the
  request before it.
\<close>

theorem every_request_is_the_gem_query:
  assumes "build_service service_account_file owner = Inr svc"
    and "user_shared_gems build_service to_datetime owner service_account_file =
      Some (sent, res)"
  shows "sent \<noteq> [] \<and> pageToken (sent ! 0) = None \<and>
     (\<forall>rq \<in> set sent.
        q rq = ''mimeType = '' @ apostrophe @ ''application/vnd.google-gemini.gem'' @
               apostrophe @ '' and '' @ apostrophe @ owner @ apostrophe @
               '' in owners and trashed = false'' \<and>
        pageSize rq = 100 \<and> supportsAllDrives rq \<and> includeItemsFromAllDrives rq \<and>
        req_fields rq = fields_spec \<and> sublist ''permissions'' (req_fields rq)) \<and>
     (\<forall>k. Suc k < length sent \<longrightarrow>
        (\<exists>r. svc (sent ! k) = Inr r \<and> pageToken (sent ! Suc k) = nextPageToken r))"
proof -
  from user_shared_gems_requests[OF assms] obtain pages where
    sent: "sent = requests_of owner None pages" and ans: "answered svc owner None pages"
    by blast
  have "sent \<noteq> []" "pageToken (sent ! 0) = None"
    by (simp_all add: sent requests_of_def list_request_def)
  moreover have "q rq = ''mimeType = '' @ apostrophe @ ''application/vnd.google-gemini.gem'' @
               apostrophe @ '' and '' @ apostrophe @ owner @ apostrophe @
               '' in owners and trashed = false'' \<and>
        pageSize rq = 100 \<and> supportsAllDrives rq \<and> includeItemsFromAllDrives rq \<and>
        req_fields rq = fields_spec \<and> sublist ''permissions'' (req_fields rq)"
    if "rq \<in> set sent" for rq
  proof -
    from that obtain tok where "rq = list_request owner tok"
      by (auto simp: sent requests_of_def)
    then show ?thesis
      using fields_spec_permissions
      by (simp add: list_request_def query_def GEM_MIME_TYPE_def)
  qed
  moreover have "\<exists>r. svc (sent ! k) = Inr r \<and> pageToken (sent ! Suc k) = nextPageToken r"
    if "Suc k < length sent" for k
  proof -
    from that have k: "k < length pages" by (simp add: sent length_requests_of)
    have "svc (sent ! k) = Inr (pages ! k)"
      unfolding sent using ans k by (rule answered_nth)
    moreover have "sent ! Suc k = list_request owner (nextPageToken (pages ! k))"
      using k requests_of_nth_token[of "Suc k" pages owner None] by (simp add: sent)
    ultimately show ?thesis by (simp add: list_request_def)
  qed
  ultimately show ?thesis by blast
qed

theorem every_request_is_the_gem_query_witness:
  "\<exists>sent res.
     user_shared_gems sample_build sample_to_datetime
       ''ada@example.org'' ''service_account_key.json'' = Some (sent, res) \<and>
     length sent = 2 \<and>
     pageSize (sent ! 1) = 100 \<and>
     pageToken (sent ! 1) = Some ''page-2'' \<and>
     sublist ''permissions'' (req_fields (sent ! 1)) \<and>
     sample_service (sent ! 0) = Inr sample_page1"
proof -
  let ?sent = "[list_request ''ada@example.org'' None,
      list_request ''ada@example.org'' (Some ''page-2'')]"
  from every_request_is_the_gem_query[OF sample_build sample_run]
  have "\<forall>rq \<in> set ?sent. pageSize rq = 100 \<and> sublist ''permissions'' (req_fields rq)"
    and "\<forall>k. Suc k < length ?sent \<longrightarrow>
        (\<exists>r. sample_service (?sent ! k) = Inr r \<and>
           pageToken (?sent ! Suc k) = nextPageToken r)"
    by blast+
  then have "pageSize (?sent ! 1) = 100" "sublist ''permissions'' (req_fields (?sent ! 1))"
    by simp_all
  moreover have "pageToken (?sent ! 1) = Some ''page-2''"
    "sample_service (?sent ! 0) = Inr sample_page1"
    by (simp_all add: list_request_def sample_service_def)
  ultimately show ?thesis using sample_run by (intro exI[of _ ?sent] exI) simp
qed

text \<open>
  C10. Every query sent ends in \<open>and trashed = false\<close>. What the service does with
  the restriction is not code of the repository; for a service that honours it (it
  answers such a query with no file that is in the trash), every row of a returned
  DataFrame is built from a file that is not in the trash: the rows are those of the
  files of the pages received, and none of these is trashed.
\<close>

theorem queries_exclude_trashed:
  assumes "build_service service_account_file owner = Inr svc"
    and "user_shared_gems build_service to_datetime owner service_account_file =
      Some (sent, res)"
    and "honours_trashed_filter svc trashed"
  shows "(\<forall>rq \<in> set sent. suffix '' and trashed = false'' (q rq)) \<and>
     (\<forall>df. res = Inr df \<longrightarrow>
        (\<exists>pages. page_chain svc owner None pages \<and>
           df = table to_datetime (pages_files pages) \<and>
           nrows df = length (pages_files pages) \<and>
           (\<forall>f \<in> set (pages_files pages). \<not> trashed f)))"
proof (intro conjI ballI allI impI)
  fix rq
  assume "rq \<in> set sent"
  moreover from user_shared_gems_requests[OF assms(1,2)] obtain pages where
    "sent = requests_of owner None pages" by blast
  ultimately have "q rq = query owner" using requests_of_query by blast
  then show "suffix '' and trashed = false'' (q rq)" by (simp add: query_suffix)
next
  fix df
  assume "res = Inr df"
  with assms(2) have "user_shared_gems build_service to_datetime owner service_account_file =
      Some (sent, Inr df)" by simp
  from user_shared_gems_returns[OF this] assms(1) obtain pages where
    chain: "page_chain svc owner None pages"
    and df: "df = table to_datetime (pages_files pages)"
    by auto
  have "\<not> trashed f" if "f \<in> set (pages_files pages)" for f
  proof -
    from page_chain_files_answered[OF chain that] obtain tok r where
      r: "svc (list_request owner tok) = Inr r" "f \<in> set (get_files r)"
      by blast
    have "suffix '' and trashed = false'' (q (list_request owner tok))"
      using query_suffix[of owner] by (simp add: list_request_def)
    with assms(3) r show ?thesis unfolding honours_trashed_filter_def by blast
  qed
  with chain df table_nrows[of to_datetime "pages_files pages"]
  show "\<exists>pages. page_chain svc owner None pages \<and>
      df = table to_datetime (pages_files pages) \<and>
      nrows df = length (pages_files pages) \<and>
      (\<forall>f \<in> set (pages_files pages). \<not> trashed f)"
    by blast
qed

theorem queries_exclude_trashed_witness:
  "\<exists>sent df.
     user_shared_gems sample_build sample_to_datetime
       ''ada@example.org'' ''service_account_key.json'' = Some (sent, Inr df) \<and>
     suffix '' and trashed = false'' (q (sent ! 0)) \<and>
     suffix '' and trashed = false'' (q (sent ! 1)) \<and>
     nrows df = 2"
proof -
  let ?sent = "[list_request ''ada@example.org'' None,
      list_request ''ada@example.org'' (Some ''page-2'')]"
  from queries_exclude_trashed[OF sample_build sample_run sample_honours]
  have "\<forall>rq \<in> set ?sent. suffix '' and trashed = false'' (q rq)" by blast
  then have "suffix '' and trashed = false'' (q (?sent ! 0))"
    "suffix '' and trashed = false'' (q (?sent ! 1))"
    by simp_all
  moreover have "nrows (table sample_to_datetime [sample_gem1, sample_gem2]) = 2"
    by (simp add: table_nrows)
  ultimately show ?thesis using sample_run by (intro exI[of _ ?sent] exI) simp
qed




end
